theory Spec2Isabelle
  imports Complex_Main
begin

section \<open>Python values, exceptions and the event loop\<close>

text \<open>
  The exceptions that occur in \<open>periodic_coroutine/__init__.py\<close>: \<open>RuntimeError\<close> is
  raised by \<open>start\<close> and \<open>stop\<close> themselves, \<open>AttributeError\<close> by reading a slot of
  \<open>__slots__\<close> that was never assigned (the payload is the slot's name),
  \<open>TimeoutError\<close> and \<open>CancelledError\<close> are the two asyncio exceptions the driving
  loop suppresses, and \<open>OtherError\<close> stands for any other exception the work raises
  (the tests use \<open>ValueError\<close>).
\<close>

datatype exn =
    RuntimeError string
  | AttributeError string
  | TimeoutError
  | CancelledError
  | OtherError string

text \<open>
  What the result slot holds: the object made by \<open>object()\<close> in \<open>__init__\<close>, or a value
  the work returned. \<open>object()\<close> allocates a new object, so its identity differs from
  that of every object the work builds.
\<close>

datatype 'v pyobj = Sentinel | WorkResult 'v

text \<open>
  The work: a coroutine function, which has a \<open>__name__\<close> (the property \<open>name\<close> reads
  it).
\<close>

datatype 'c callable = Callable (dunder_name: string) (body: 'c)

text \<open>
  The event loop, as far as the class uses it: the tasks the class makes with
  \<open>self._loop.create_task\<close> (a task is known by its position in that list), each
  with the name given and whether a step of the history requested its cancellation
  (\<open>stop\<close>, or the timeout of \<open>wait_for\<close>), and the callbacks
  handed to \<open>call_soon\<close> (no delay) and \<open>call_later\<close>. The only callbacks the class
  schedules are its own bound methods \<open>_start\<close> and \<open>_stop\<close>. \<open>fut_waiter\<close> says
  which task a suspended task is waiting for: the task of \<open>_run\<close> waits in
  \<open>wait_for(gather(_inner(c), sleep(...)))\<close> and \<open>_inner(c)\<close> in \<open>await self._task\<close>,
  with no \<open>shield\<close> anywhere, so the task of \<open>_run\<close> is waiting for the work task
  of the cycle.
\<close>

datatype callback = CbStart | CbStop

record task =
  tname :: string
  cancel_requested :: bool

record event_loop =
  tasks :: "task list"
  scheduled :: "(real option \<times> callback) list"
  fut_waiter :: "nat \<rightharpoonup> nat"

definition create_task :: "string \<Rightarrow> event_loop \<Rightarrow> nat \<times> event_loop" where
  "create_task nm l =
     (length (tasks l), l\<lparr>tasks := tasks l @ [\<lparr>tname = nm, cancel_requested = False\<rparr>]\<rparr>)"

text \<open>
  Cancelling what a task waits for: asyncio hands a cancellation down the chain of
  awaited futures, so it is requested on the task at the end of the chain.
  \<open>Task.cancel()\<close> requests the cancellation of the task itself and of what it waits
  for.
\<close>

definition cancel_waiter :: "nat \<Rightarrow> event_loop \<Rightarrow> event_loop" where
  "cancel_waiter t l =
     (case fut_waiter l t of
        None \<Rightarrow> l
      | Some u \<Rightarrow> l\<lparr>tasks := (tasks l)[u := (tasks l ! u)\<lparr>cancel_requested := True\<rparr>]\<rparr>)"

definition cancel :: "nat \<Rightarrow> event_loop \<Rightarrow> event_loop" where
  "cancel t l =
     cancel_waiter t (l\<lparr>tasks := (tasks l)[t := (tasks l ! t)\<lparr>cancel_requested := True\<rparr>]\<rparr>)"

definition call_soon :: "callback \<Rightarrow> event_loop \<Rightarrow> event_loop" where
  "call_soon cb l = l\<lparr>scheduled := scheduled l @ [(None, cb)]\<rparr>"

definition call_later :: "real \<Rightarrow> callback \<Rightarrow> event_loop \<Rightarrow> event_loop" where
  "call_later d cb l = l\<lparr>scheduled := scheduled l @ [(Some d, cb)]\<rparr>"

text \<open>Python's \<open>str\<close> on a non-negative \<open>int\<close>, used by the f-string of \<open>_inner\<close>.\<close>

function str :: "nat \<Rightarrow> string" where
  "str n = (if n < 10 then [''0123456789'' ! n]
            else str (n div 10) @ [''0123456789'' ! (n mod 10)])"
  by pat_completeness auto
termination
  by (relation "measure id") auto

declare str.simps [simp del]

section \<open>The class \<open>Periodic\<close>\<close>

text \<open>
  One field per slot of \<open>__slots__\<close>, the leading underscore written \<open>p_\<close>. The slots
  \<open>_result\<close>, \<open>_task\<close> and \<open>_main\<close> are not assigned by every path of \<open>__init__\<close>:
  \<open>None\<close> is the unassigned slot, whose read raises \<open>AttributeError\<close>. \<open>_lock\<close> is the
  lock's \<open>locked\<close> flag; \<open>_task\<close> and \<open>_main\<close> hold tasks of \<open>_loop\<close>.
\<close>

record ('c, 'a, 'v) periodic =
  p_coro :: "'c callable"
  p_args :: "'a list"
  p_kwargs :: "string \<rightharpoonup> 'a"
  p_loop :: event_loop
  p_lock :: bool
  p_interval :: real
  p_running :: bool
  p_result :: "'v pyobj option"
  p_task :: "nat option"
  p_main :: "nat option"

text \<open>
  \<open>__init__\<close>. \<open>loop or asyncio.get_running_loop()\<close> takes the loop passed, and the
  running loop otherwise; \<open>get_running_loop\<close> raises \<open>RuntimeError\<close> when there is
  none, and then no instance is made.
\<close>

definition init ::
  "'c callable \<Rightarrow> real \<Rightarrow> 'a list \<Rightarrow> event_loop option \<Rightarrow> event_loop option \<Rightarrow> bool \<Rightarrow>
   (string \<rightharpoonup> 'a) \<Rightarrow> exn + ('c, 'a, 'v) periodic" where
  "init coro interval args loop running_loop ignore_exceptions kwargs =
     (case (case loop of Some l \<Rightarrow> Some l | None \<Rightarrow> running_loop) of
        None \<Rightarrow> Inl (RuntimeError ''no running event loop'')
      | Some l \<Rightarrow>
          Inr \<lparr>p_coro = coro, p_args = args, p_kwargs = kwargs, p_loop = l,
               p_lock = False, p_interval = interval, p_running = False,
               p_result = (if ignore_exceptions then Some Sentinel else None),
               p_task = None, p_main = None\<rparr>)"

definition name :: "('c, 'a, 'v) periodic \<Rightarrow> string" where
  "name s = ''Periodic-'' @ dunder_name (p_coro s)"

definition interval :: "('c, 'a, 'v) periodic \<Rightarrow> real" where
  "interval s = p_interval s"

definition running :: "('c, 'a, 'v) periodic \<Rightarrow> bool" where
  "running s = p_running s"

definition p_start :: "('c, 'a, 'v) periodic \<Rightarrow> ('c, 'a, 'v) periodic" where
  "p_start s =
     (let (t, l) = create_task (name s @ ''-main'') (p_loop s)
      in s\<lparr>p_loop := l, p_main := Some t\<rparr>)"

definition p_stop :: "('c, 'a, 'v) periodic \<Rightarrow> (exn + unit) \<times> ('c, 'a, 'v) periodic" where
  "p_stop s =
     (case p_main s of
        None \<Rightarrow> (Inl (AttributeError ''_main''), s)
      | Some t \<Rightarrow> (Inr (), s\<lparr>p_loop := cancel t (p_loop s)\<rparr>))"

text \<open>
  \<open>start\<close> and \<open>stop\<close> return the outcome of the call and the instance as the call
  leaves it: an assignment made before a \<open>raise\<close> stays.
\<close>

definition start ::
  "real option \<Rightarrow> ('c, 'a, 'v) periodic \<Rightarrow> (exn + unit) \<times> ('c, 'a, 'v) periodic" where
  "start delay s =
     (if running s then (Inl (RuntimeError ''Coroutine is already running!''), s)
      else
        let s1 = s\<lparr>p_running := True\<rparr> in
        (case delay of
           None \<Rightarrow> (Inr (), s1\<lparr>p_loop := call_soon CbStart (p_loop s1)\<rparr>)
         | Some d \<Rightarrow> (Inr (), s1\<lparr>p_loop := call_later d CbStart (p_loop s1)\<rparr>)))"

definition stop ::
  "real option \<Rightarrow> ('c, 'a, 'v) periodic \<Rightarrow> (exn + unit) \<times> ('c, 'a, 'v) periodic" where
  "stop delay s =
     (if \<not> running s then (Inl (RuntimeError ''Coroutine is already stopped!''), s)
      else
        let s1 = s\<lparr>p_running := False\<rparr> in
        (case delay of
           None \<Rightarrow> p_stop s1
         | Some d \<Rightarrow> (Inr (), s1\<lparr>p_loop := call_later d CbStop (p_loop s1)\<rparr>)))"

text \<open>
  \<open>async with self._lock\<close> sets the lock's flag on entry and clears it on exit, also
  when the body raises. A coroutine that finds the lock taken waits; the bodies below
  are what runs from the moment the lock is granted.
\<close>

definition acquire :: "('c, 'a, 'v) periodic \<Rightarrow> ('c, 'a, 'v) periodic" where
  "acquire s = s\<lparr>p_lock := True\<rparr>"

definition release :: "('c, 'a, 'v) periodic \<Rightarrow> ('c, 'a, 'v) periodic" where
  "release s = s\<lparr>p_lock := False\<rparr>"

definition get_result ::
  "('c, 'a, 'v) periodic \<Rightarrow> (exn + 'v pyobj) \<times> ('c, 'a, 'v) periodic" where
  "get_result s =
     (let s1 = acquire s in
      (case p_result s1 of
         None \<Rightarrow> (Inl (AttributeError ''_result''), release s1)
       | Some v \<Rightarrow> (Inr v, release s1)))"

section \<open>The driving loop\<close>

text \<open>
  \<open>_inner\<close> and \<open>_run\<close> await asyncio; what each await delivers is an input of the
  model, and so is what the work does. For \<open>_inner\<close>: the coroutine was cancelled
  before its first step (\<open>NotStarted\<close>); the call \<open>self._coro(*self._args,
  **self._kwargs)\<close> raised (\<open>CallRaised\<close>), so that \<open>create_task\<close> is not reached; the
  coroutine was cancelled while it waited for the lock (\<open>LockCancelled\<close>); or
  \<open>await self._task\<close> returned a value or raised, the lock held. \<open>spawns\<close> tells
  the outcomes in which the work task is made.
\<close>

datatype 'v inner_outcome =
    NotStarted
  | CallRaised exn
  | LockCancelled
  | TaskReturned 'v
  | TaskRaised exn

fun spawns :: "'v inner_outcome \<Rightarrow> bool" where
  "spawns NotStarted = False"
| "spawns (CallRaised e) = False"
| "spawns LockCancelled = True"
| "spawns (TaskReturned v) = True"
| "spawns (TaskRaised e) = True"

definition p_inner ::
  "nat \<Rightarrow> 'v inner_outcome \<Rightarrow> ('c, 'a, 'v) periodic \<Rightarrow> ('c, 'a, 'v) periodic" where
  "p_inner counter io s =
     (if \<not> spawns io then s
      else
        let (t, l) = create_task (name s @ ''-'' @ str counter) (p_loop s);
            s1 = s\<lparr>p_loop := l, p_task := Some t\<rparr>
        in (case io of
              TaskReturned v \<Rightarrow> release ((acquire s1)\<lparr>p_result := Some (WorkResult v)\<rparr>)
            | TaskRaised e \<Rightarrow> release (acquire s1)
            | _ \<Rightarrow> s1))"

text \<open>
  \<open>_inner\<close> in two steps, for what happens while the work is outstanding.
  \<open>p_inner_enter\<close> is \<open>_inner\<close> up to its \<open>await\<close>: the task is made, the lock is taken,
  and the task of \<open>_run\<close> now waits for the work task. \<open>p_inner_resume\<close> is the rest,
  from what \<open>await self._task\<close> delivers (\<open>Inr v\<close>: the work returned \<open>v\<close>, \<open>Inl e\<close>: the
  \<open>await\<close> raised \<open>e\<close>): the assignment is made only in the first case, and the lock is
  released in both.
\<close>

definition p_inner_enter :: "nat \<Rightarrow> ('c, 'a, 'v) periodic \<Rightarrow> ('c, 'a, 'v) periodic" where
  "p_inner_enter counter s =
     (let (t, l) = create_task (name s @ ''-'' @ str counter) (p_loop s);
          l' = (case p_main s of
                  None \<Rightarrow> l
                | Some m \<Rightarrow> l\<lparr>fut_waiter := (fut_waiter l)(m \<mapsto> t)\<rparr>)
      in acquire (s\<lparr>p_loop := l', p_task := Some t\<rparr>))"

definition p_inner_resume ::
  "exn + 'v \<Rightarrow> ('c, 'a, 'v) periodic \<Rightarrow> ('c, 'a, 'v) periodic" where
  "p_inner_resume r s =
     (let l' = (case p_main s of
                  None \<Rightarrow> p_loop s
                | Some m \<Rightarrow> (p_loop s)\<lparr>fut_waiter := (fut_waiter (p_loop s))(m := None)\<rparr>);
          s1 = s\<lparr>p_loop := l'\<rparr>
      in (case r of
            Inr v \<Rightarrow> release (s1\<lparr>p_result := Some (WorkResult v)\<rparr>)
          | Inl e \<Rightarrow> release s1))"

text \<open>
  The timeout of \<open>asyncio.wait_for(_gather_fut, timeout=self.interval)\<close> runs out while
  the work is outstanding: \<open>wait_for\<close> cancels \<open>_gather_fut\<close>, \<open>gather\<close> cancels
  \<open>_inner(c)\<close>, and that cancels the task \<open>_inner(c)\<close> is waiting for.
\<close>

definition timeout_fires :: "('c, 'a, 'v) periodic \<Rightarrow> ('c, 'a, 'v) periodic" where
  "timeout_fires s =
     (case p_main s of
        None \<Rightarrow> s
      | Some m \<Rightarrow> s\<lparr>p_loop := cancel_waiter m (p_loop s)\<rparr>)"

text \<open>
  One cycle of \<open>_run\<close> as asyncio delivers it: what became of \<open>_inner(c)\<close>, what
  \<open>await asyncio.wait_for(_gather_fut, ...)\<close> raised and what \<open>_gather_fut.result()\<close>
  raised (\<open>None\<close>: the call returned).
\<close>

datatype 'v cycle_event =
  CycleEvent (ev_inner: "'v inner_outcome") (ev_wait_for: "exn option") (ev_result: "exn option")

text \<open>\<open>with suppress(cls): ...\<close> swallows an exception of that class and passes any other.\<close>

definition suppress :: "exn \<Rightarrow> exn option \<Rightarrow> exn option" where
  "suppress cls r = (case r of None \<Rightarrow> None | Some e \<Rightarrow> if e = cls then None else Some e)"

text \<open>The body of the \<open>for\<close> loop of \<open>_run\<close>: \<open>Some e\<close> when \<open>e\<close> leaves the loop.\<close>

definition run_body ::
  "nat \<Rightarrow> 'v cycle_event \<Rightarrow> ('c, 'a, 'v) periodic \<Rightarrow> exn option \<times> ('c, 'a, 'v) periodic" where
  "run_body c ev s =
     (let s1 = p_inner c (ev_inner ev) s in
      (case suppress TimeoutError (ev_wait_for ev) of
         Some e \<Rightarrow> (Some e, s1)
       | None \<Rightarrow>
           (case suppress CancelledError (ev_result ev) of
              Some e \<Rightarrow> (Some e, s1)
            | None \<Rightarrow> (None, s1))))"

text \<open>
  \<open>for c in itertools.count(1)\<close> has no exit but an exception. The loop is run on the
  cycles delivered so far: \<open>Pending c\<close> says it is still alive and its next cycle is
  \<open>c\<close>, \<open>Ended e\<close> that \<open>e\<close> ended it.
\<close>

datatype loop_status = Pending nat | Ended exn

fun run_from ::
  "nat \<Rightarrow> ('c, 'a, 'v) periodic \<Rightarrow> 'v cycle_event list \<Rightarrow> loop_status \<times> ('c, 'a, 'v) periodic" where
  "run_from c s [] = (Pending c, s)"
| "run_from c s (ev # evs) =
     (case run_body c ev s of
        (Some e, s') \<Rightarrow> (Ended e, s')
      | (None, s') \<Rightarrow> run_from (Suc c) s' evs)"

definition p_run ::
  "('c, 'a, 'v) periodic \<Rightarrow> 'v cycle_event list \<Rightarrow> loop_status \<times> ('c, 'a, 'v) periodic" where
  "p_run s evs = run_from 1 s evs"

section \<open>Histories of an instance\<close>

text \<open>
  Everything that can happen to an instance: a call of \<open>start\<close>, \<open>stop\<close> or
  \<open>get_result\<close>, the event loop running a scheduled callback, and a cycle of the
  driving loop. A history is any list of these, in any order. \<open>Cycle\<close> is a cycle
  that nothing else falls into, with what asyncio did in it as part of the event
  delivered; a cycle that something falls into is written in its
  steps: \<open>Enter\<close> when \<open>_inner\<close> reaches its \<open>await\<close>, \<open>Timeout\<close> when the timeout of
  \<open>wait_for\<close> runs out, \<open>Leave\<close> when the \<open>await\<close> of \<open>_inner\<close> delivers.
\<close>

datatype 'v op =
    Start "real option"
  | Stop "real option"
  | Fire nat
  | Cycle nat "'v cycle_event"
  | GetResult
  | Enter nat
  | Timeout
  | Leave "exn + 'v"

definition fire :: "nat \<Rightarrow> ('c, 'a, 'v) periodic \<Rightarrow> ('c, 'a, 'v) periodic" where
  "fire k s =
     (let q = scheduled (p_loop s) in
      if k < length q then
        let s1 = s\<lparr>p_loop := (p_loop s)\<lparr>scheduled := take k q @ drop (Suc k) q\<rparr>\<rparr>
        in (case snd (q ! k) of CbStart \<Rightarrow> p_start s1 | CbStop \<Rightarrow> snd (p_stop s1))
      else s)"

fun apply_op :: "('c, 'a, 'v) periodic \<Rightarrow> 'v op \<Rightarrow> ('c, 'a, 'v) periodic" where
  "apply_op s (Start d) = snd (start d s)"
| "apply_op s (Stop d) = snd (stop d s)"
| "apply_op s (Fire k) = fire k s"
| "apply_op s (Cycle c ev) = snd (run_body c ev s)"
| "apply_op s GetResult = snd (get_result s)"
| "apply_op s (Enter c) = p_inner_enter c s"
| "apply_op s Timeout = timeout_fires s"
| "apply_op s (Leave r) = p_inner_resume r s"

definition run_ops :: "('c, 'a, 'v) periodic \<Rightarrow> 'v op list \<Rightarrow> ('c, 'a, 'v) periodic" where
  "run_ops s ops = foldl apply_op s ops"


text \<open>
  A call of \<open>get_result\<close> in the state \<open>s\<close>, followed by what happens next
  (\<open>during\<close>). \<open>async with self._lock\<close> goes on at once when the lock is free; when
  it is taken, the call waits: \<open>wait_lock\<close> is the state in which the lock is granted
  (\<open>None\<close>: the call still waits at the end of \<open>during\<close>) and \<open>waited\<close> the part of
  \<open>during\<close> that happened before.
\<close>

fun wait_lock ::
  "('c, 'a, 'v) periodic \<Rightarrow> 'v op list \<Rightarrow> ('c, 'a, 'v) periodic option" where
  "wait_lock s [] = (if p_lock s then None else Some s)"
| "wait_lock s (x # xs) = (if p_lock s then wait_lock (apply_op s x) xs else Some s)"


definition get_result_call ::
  "('c, 'a, 'v) periodic \<Rightarrow> 'v op list \<Rightarrow>
   ((exn + 'v pyobj) \<times> ('c, 'a, 'v) periodic) option" where
  "get_result_call s during = map_option get_result (wait_lock s during)"

section \<open>The instances of the test suite\<close>

text \<open>
  \<open>tests/test_periodic.py\<close> builds its instances from the coroutine functions
  \<open>awake_msg\<close> (returns \<open>"Good Morning!"\<close>) and \<open>just_raise\<close> (raises \<open>ValueError\<close>),
  with no arguments, on a running loop that has no task and no callback of the class
  yet. \<open>fresh coro i ig\<close> is the instance \<open>Periodic(coro, i, ignore_exceptions=ig)\<close>
  makes there.
\<close>

definition awake_msg :: "unit callable" where
  "awake_msg = Callable ''awake_msg'' ()"

definition just_raise :: "unit callable" where
  "just_raise = Callable ''just_raise'' ()"

definition test_loop :: event_loop where
  "test_loop = \<lparr>tasks = [], scheduled = [], fut_waiter = Map.empty\<rparr>"

definition fresh :: "unit callable \<Rightarrow> real \<Rightarrow> bool \<Rightarrow> (unit, unit, string) periodic" where
  "fresh coro i ig =
     \<lparr>p_coro = coro, p_args = [], p_kwargs = Map.empty, p_loop = test_loop,
      p_lock = False, p_interval = i, p_running = False,
      p_result = (if ig then Some Sentinel else None), p_task = None, p_main = None\<rparr>"

section \<open>What each method leaves unchanged\<close>

lemma init_Inr:
  "init coro i args loop rl ig kwargs = Inr s \<Longrightarrow>
   p_coro s = coro \<and> p_args s = args \<and> p_kwargs s = kwargs \<and> p_interval s = i \<and>
   \<not> p_running s \<and> \<not> p_lock s \<and> p_task s = None \<and> p_main s = None \<and>
   p_result s = (if ig then Some Sentinel else None)"
  by (auto simp: init_def split: option.splits)

lemma init_fresh: "init coro i [] None (Some test_loop) ig Map.empty = Inr (fresh coro i ig)"
  by (simp add: init_def fresh_def)

lemma p_inner_frame:
  "p_coro (p_inner c io s) = p_coro s"
  "p_args (p_inner c io s) = p_args s"
  "p_kwargs (p_inner c io s) = p_kwargs s"
  "p_interval (p_inner c io s) = p_interval s"
  "p_running (p_inner c io s) = p_running s"
  "p_main (p_inner c io s) = p_main s"
  by (cases io; simp add: p_inner_def acquire_def release_def create_task_def Let_def)+


lemma p_inner_tasks:
  "spawns io \<Longrightarrow>
   tasks (p_loop (p_inner c io s)) =
     tasks (p_loop s) @ [\<lparr>tname = name s @ ''-'' @ str c, cancel_requested = False\<rparr>] \<and>
   p_task (p_inner c io s) = Some (length (tasks (p_loop s)))"
  by (cases io) (simp_all add: p_inner_def acquire_def release_def create_task_def Let_def)

lemma snd_run_body: "snd (run_body c ev s) = p_inner c (ev_inner ev) s"
  by (simp add: run_body_def Let_def split: option.splits)


lemma snd_start:
  "snd (start d s) =
     (if running s then s
      else s\<lparr>p_running := True,
             p_loop := (case d of None \<Rightarrow> call_soon CbStart (p_loop s)
                        | Some t \<Rightarrow> call_later t CbStart (p_loop s))\<rparr>)"
  by (simp add: start_def Let_def split: option.splits)

lemma p_stop_frame:
  "p_coro (snd (p_stop s)) = p_coro s"
  "p_args (snd (p_stop s)) = p_args s"
  "p_kwargs (snd (p_stop s)) = p_kwargs s"
  "p_interval (snd (p_stop s)) = p_interval s"
  "p_running (snd (p_stop s)) = p_running s"
  "p_result (snd (p_stop s)) = p_result s"
  by (simp_all add: p_stop_def split: option.splits)

lemma p_start_frame:
  "p_coro (p_start s) = p_coro s"
  "p_args (p_start s) = p_args s"
  "p_kwargs (p_start s) = p_kwargs s"
  "p_interval (p_start s) = p_interval s"
  "p_running (p_start s) = p_running s"
  "p_result (p_start s) = p_result s"
  by (simp_all add: p_start_def create_task_def)

lemma start_frame:
  "p_coro (snd (start d s)) = p_coro s"
  "p_args (snd (start d s)) = p_args s"
  "p_kwargs (snd (start d s)) = p_kwargs s"
  "p_interval (snd (start d s)) = p_interval s"
  "p_result (snd (start d s)) = p_result s"
  "p_main (snd (start d s)) = p_main s"
  by (simp_all add: snd_start)

lemma stop_frame:
  "p_coro (snd (stop d s)) = p_coro s"
  "p_args (snd (stop d s)) = p_args s"
  "p_kwargs (snd (stop d s)) = p_kwargs s"
  "p_interval (snd (stop d s)) = p_interval s"
  "p_result (snd (stop d s)) = p_result s"
  by (simp_all add: stop_def Let_def p_stop_frame split: option.splits)

lemma fire_frame:
  "p_coro (fire k s) = p_coro s"
  "p_args (fire k s) = p_args s"
  "p_kwargs (fire k s) = p_kwargs s"
  "p_interval (fire k s) = p_interval s"
  "p_running (fire k s) = p_running s"
  "p_result (fire k s) = p_result s"
  by (simp_all add: fire_def Let_def p_start_frame p_stop_frame split: callback.splits)

lemma p_inner_enter_frame:
  "p_coro (p_inner_enter c s) = p_coro s"
  "p_args (p_inner_enter c s) = p_args s"
  "p_kwargs (p_inner_enter c s) = p_kwargs s"
  "p_interval (p_inner_enter c s) = p_interval s"
  "p_running (p_inner_enter c s) = p_running s"
  "p_result (p_inner_enter c s) = p_result s"
  "p_main (p_inner_enter c s) = p_main s"
  by (simp_all add: p_inner_enter_def acquire_def create_task_def Let_def)

lemma p_inner_resume_frame:
  "p_coro (p_inner_resume r s) = p_coro s"
  "p_args (p_inner_resume r s) = p_args s"
  "p_kwargs (p_inner_resume r s) = p_kwargs s"
  "p_interval (p_inner_resume r s) = p_interval s"
  "p_running (p_inner_resume r s) = p_running s"
  "p_main (p_inner_resume r s) = p_main s"
  by (cases r; simp add: p_inner_resume_def release_def Let_def)+


lemma timeout_fires_frame:
  "p_coro (timeout_fires s) = p_coro s"
  "p_args (timeout_fires s) = p_args s"
  "p_kwargs (timeout_fires s) = p_kwargs s"
  "p_interval (timeout_fires s) = p_interval s"
  "p_running (timeout_fires s) = p_running s"
  "p_result (timeout_fires s) = p_result s"
  "p_main (timeout_fires s) = p_main s"
  by (simp_all add: timeout_fires_def split: option.splits)

lemma snd_get_result: "snd (get_result s) = s\<lparr>p_lock := False\<rparr>"
  by (simp add: get_result_def acquire_def release_def Let_def split: option.splits)


section \<open>Histories\<close>

lemma run_ops_snoc: "run_ops s (ops @ [op]) = apply_op (run_ops s ops) op"
  by (simp add: run_ops_def)

lemma apply_op_interval: "p_interval (apply_op s op) = p_interval s"
  by (cases op)
     (simp_all add: start_frame stop_frame fire_frame snd_run_body p_inner_frame snd_get_result
        p_inner_enter_frame p_inner_resume_frame timeout_fires_frame)

lemma run_ops_interval: "p_interval (run_ops s ops) = p_interval s"
proof (induction ops rule: rev_induct)
  case Nil
  show ?case by (simp add: run_ops_def)
next
  case (snoc op ops)
  then show ?case by (simp add: run_ops_snoc apply_op_interval)
qed





section \<open>A call that waits for the lock\<close>








text \<open>
  The two steps of \<open>_inner\<close>, one after the other, are \<open>_inner\<close> as a whole, when the
  task of \<open>_run\<close> was not waiting for a work task before.
\<close>

lemma p_inner_split:
  assumes "case p_main s of None \<Rightarrow> True | Some m \<Rightarrow> fut_waiter (p_loop s) m = None"
  shows "p_inner_resume (Inr v) (p_inner_enter c s) = p_inner c (TaskReturned v) s"
    and "p_inner_resume (Inl e) (p_inner_enter c s) = p_inner c (TaskRaised e) s"
  using assms
  by (auto simp: p_inner_resume_def p_inner_enter_def p_inner_def acquire_def release_def
      create_task_def Let_def fun_upd_idem split: option.splits)

section \<open>The loop, cycle by cycle\<close>

lemma run_from_append:
  "run_from c s (xs @ ys) =
     (case run_from c s xs of
        (Pending c', s') \<Rightarrow> run_from c' s' ys
      | (Ended e, s') \<Rightarrow> (Ended e, s'))"
  by (induction xs arbitrary: c s) (auto split: prod.splits option.splits loop_status.splits)

lemma run_from_counter:
  "fst (run_from c s evs) = Pending c' \<Longrightarrow> c' = c + length evs"
proof (induction evs arbitrary: c s)
  case Nil
  then show ?case by simp
next
  case (Cons ev evs)
  obtain r s' where rb: "run_body c ev s = (r, s')" by (cases "run_body c ev s")
  show ?case
  proof (cases r)
    case None
    then have "fst (run_from (Suc c) s' evs) = Pending c'" using Cons.prems rb by simp
    then have "c' = Suc c + length evs" by (rule Cons.IH)
    then show ?thesis by simp
  next
    case (Some e)
    then show ?thesis using Cons.prems rb by simp
  qed
qed

lemma run_from_frame:
  "p_coro (snd (run_from c s evs)) = p_coro s \<and>
   p_running (snd (run_from c s evs)) = p_running s \<and>
   p_interval (snd (run_from c s evs)) = p_interval s"
proof (induction evs arbitrary: c s)
  case Nil
  show ?case by simp
next
  case (Cons ev evs)
  obtain r s' where rb: "run_body c ev s = (r, s')" by (cases "run_body c ev s")
  then have s': "s' = p_inner c (ev_inner ev) s" using snd_run_body [of c ev s] by simp
  show ?case
  proof (cases r)
    case None
    then show ?thesis using rb s' Cons.IH [of "Suc c" s'] by (simp add: p_inner_frame)
  next
    case (Some e)
    then show ?thesis using rb s' by (simp add: p_inner_frame)
  qed
qed

lemma p_run_snoc:
  "fst (p_run s pre) = Pending c \<Longrightarrow>
   p_run s (pre @ ev # post) =
     (case run_body c ev (snd (p_run s pre)) of
        (Some e, s') \<Rightarrow> (Ended e, s')
      | (None, s') \<Rightarrow> run_from (Suc c) s' post)"
  by (cases "run_from 1 s pre") (simp add: p_run_def run_from_append)

text \<open>The definitions a concrete history is evaluated with.\<close>

lemmas eval_simps =
  fresh_def awake_msg_def just_raise_def test_loop_def run_ops_def start_def stop_def
  running_def interval_def name_def fire_def p_start_def p_stop_def create_task_def
  cancel_def cancel_waiter_def call_soon_def call_later_def get_result_def acquire_def
  release_def p_inner_def run_body_def suppress_def p_run_def Let_def str.simps
  p_inner_enter_def p_inner_resume_def timeout_fires_def get_result_call_def

section \<open>The claims\<close>









text \<open>
  C4. \<open>start\<close> on a running instance raises and changes nothing, and so does \<open>stop\<close>
  on an instance that is not running; the exception is the \<open>RuntimeError\<close> the
  specification calls \<open>InvalidStateError\<close>. Otherwise \<open>start\<close> returns and leaves
  \<open>running\<close> true, and \<open>stop\<close> leaves \<open>running\<close> false.
\<close>

theorem start_stop_state:
  "(running s \<longrightarrow> start d s = (Inl (RuntimeError ''Coroutine is already running!''), s)) \<and>
   (\<not> running s \<longrightarrow> fst (start d s) = Inr () \<and> running (snd (start d s))) \<and>
   (\<not> running s \<longrightarrow> stop d s = (Inl (RuntimeError ''Coroutine is already stopped!''), s)) \<and>
   (running s \<longrightarrow> \<not> running (snd (stop d s)))"
  by (simp add: start_def stop_def running_def Let_def p_stop_frame split: option.splits)

theorem start_stop_state_witness:
  "fst (start None (fresh awake_msg 2 False)) = Inr () \<and>
   running (snd (start None (fresh awake_msg 2 False))) \<and>
   stop None (fresh awake_msg 2 False) =
     (Inl (RuntimeError ''Coroutine is already stopped!''), fresh awake_msg 2 False) \<and>
   start None (snd (start None (fresh awake_msg 2 False))) =
     (Inl (RuntimeError ''Coroutine is already running!''),
      snd (start None (fresh awake_msg 2 False))) \<and>
   \<not> running (snd (stop (Some 1) (snd (start None (fresh awake_msg 2 False)))))"
  using start_stop_state [of "fresh awake_msg 2 False" None]
    start_stop_state [of "snd (start None (fresh awake_msg 2 False))" "Some 1"]
    start_stop_state [of "snd (start None (fresh awake_msg 2 False))" None]
  by (simp add: eval_simps)




text \<open>
  C7, as the code has it. \<open>__init__\<close> stores the interval it is given and checks
  nothing: the interval of an instance is the constructor's argument, no history
  changes it, and so it is positive exactly when the argument was.
\<close>

theorem interval_is_constructor_argument:
  assumes "init coro i args loop rl ig kwargs = Inr s"
  shows "interval s = i \<and> interval (run_ops s ops) = i \<and>
         (0 < interval (run_ops s ops)) = (0 < i)"
  using init_Inr [OF assms] by (simp add: interval_def run_ops_interval)

theorem interval_is_constructor_argument_witness:
  "interval (fresh awake_msg 2 False) = 2 \<and>
   interval (run_ops (fresh awake_msg 2 False)
     [Start None, Fire 0, Cycle 1 (CycleEvent (TaskReturned ''Good Morning!'') None None),
      GetResult, Stop None]) = 2"
  using interval_is_constructor_argument [OF init_fresh,
      of awake_msg 2 False
         "[Start None, Fire 0, Cycle 1 (CycleEvent (TaskReturned ''Good Morning!'') None None),
           GetResult, Stop None]"]
  by simp

text \<open>
  C7 as stated fails: \<open>Periodic(awake_msg, 0)\<close> is constructed, and its interval is
  not positive.
\<close>

theorem interval_not_positive:
  "init awake_msg 0 [] None (Some test_loop) False Map.empty = Inr (fresh awake_msg 0 False) \<and>
   \<not> 0 < interval (fresh awake_msg 0 False)"
  by (simp add: init_def fresh_def interval_def)

text \<open>
  C8. The counter of \<open>_run\<close> starts at 1 and is one more after every cycle: a loop
  still alive after the cycles \<open>evs\<close> is at cycle \<open>length evs + 1\<close>. The cycle that
  comes then, if its \<open>_inner\<close> gets as far as \<open>create_task\<close>, makes exactly one
  task, whose name ends in that number (\<open>f"{self.name}-{counter}"\<close>), and \<open>_task\<close>
  holds it.
\<close>

theorem cycle_counter_labels:
  "p_run s [] = (Pending 1, s) \<and>
   (fst (p_run s evs) = Pending c \<longrightarrow> c = Suc (length evs)) \<and>
   (fst (p_run s evs) = Pending c \<and> spawns (ev_inner ev) \<longrightarrow>
      tasks (p_loop (snd (p_run s (evs @ [ev])))) =
        tasks (p_loop (snd (p_run s evs))) @
          [\<lparr>tname = name s @ ''-'' @ str (Suc (length evs)), cancel_requested = False\<rparr>] \<and>
      p_task (snd (p_run s (evs @ [ev]))) = Some (length (tasks (p_loop (snd (p_run s evs))))))"
proof -
  have a: "p_run s [] = (Pending 1, s)" by (simp add: p_run_def)
  have b: "c = Suc (length evs)" if "fst (p_run s evs) = Pending c"
    using run_from_counter [of 1 s evs c] that by (simp add: p_run_def)
  have n: "name (snd (p_run s evs)) = name s"
    using run_from_frame [of 1 s evs] by (simp add: p_run_def name_def)
  have c: "tasks (p_loop (snd (p_run s (evs @ [ev])))) =
        tasks (p_loop (snd (p_run s evs))) @
          [\<lparr>tname = name s @ ''-'' @ str (Suc (length evs)), cancel_requested = False\<rparr>] \<and>
      p_task (snd (p_run s (evs @ [ev]))) = Some (length (tasks (p_loop (snd (p_run s evs)))))"
    if p: "fst (p_run s evs) = Pending c" and i: "spawns (ev_inner ev)"
  proof -
    have "snd (p_run s (evs @ [ev])) = snd (run_body c ev (snd (p_run s evs)))"
      using p_run_snoc [OF p, of ev "[]"] by (simp split: prod.splits option.splits)
    then have "snd (p_run s (evs @ [ev])) = p_inner c (ev_inner ev) (snd (p_run s evs))"
      by (simp add: snd_run_body)
    then show ?thesis
      using p_inner_tasks [OF i, of c "snd (p_run s evs)"] n b [OF p] by simp
  qed
  show ?thesis using a b c by blast
qed

text \<open>
  Interval 0.2 and work of 0.5: the first cycle times out, the second is cycle 2 and
  its task is \<open>Periodic-awake_msg-2\<close>.
\<close>

theorem cycle_counter_labels_witness:
  "fst (p_run (fresh awake_msg (1/5) True)
     [CycleEvent (TaskRaised CancelledError) (Some TimeoutError) (Some CancelledError)]) =
     Pending 2 \<and>
   map tname (tasks (p_loop (snd (p_run (fresh awake_msg (1/5) True)
     ([CycleEvent (TaskRaised CancelledError) (Some TimeoutError) (Some CancelledError)] @
      [CycleEvent (TaskRaised CancelledError) (Some TimeoutError) (Some CancelledError)]))))) =
     [''Periodic-awake_msg-1'', ''Periodic-awake_msg-2''] \<and>
   p_task (snd (p_run (fresh awake_msg (1/5) True)
     ([CycleEvent (TaskRaised CancelledError) (Some TimeoutError) (Some CancelledError)] @
      [CycleEvent (TaskRaised CancelledError) (Some TimeoutError) (Some CancelledError)]))) =
     Some 1"
  using cycle_counter_labels [of "fresh awake_msg (1/5) True"
      "[CycleEvent (TaskRaised CancelledError) (Some TimeoutError) (Some CancelledError)]" 2
      "CycleEvent (TaskRaised CancelledError) (Some TimeoutError) (Some CancelledError)"]
  by (simp add: eval_simps)

text \<open>
  C9. A new instance is started (with or without a delay) and the event loop has not
  run the scheduled \<open>_start\<close> yet, so \<open>_main\<close> is unassigned. \<open>stop()\<close> with no delay
  then raises the \<open>AttributeError\<close> of the slot \<open>_main\<close>, and the instance it leaves
  differs from the started one in \<open>running\<close>, which is already false.
\<close>

theorem stop_before_main_exists:
  assumes "init coro i args loop rl ig kwargs = Inr s"
  shows "fst (start d s) = Inr () \<and> running (snd (start d s)) \<and>
         p_main (snd (start d s)) = None \<and>
         stop None (snd (start d s)) =
           (Inl (AttributeError ''_main''), (snd (start d s))\<lparr>p_running := False\<rparr>) \<and>
         \<not> running (snd (stop None (snd (start d s))))"
  using init_Inr [OF assms]
  by (simp add: start_def stop_def running_def Let_def p_stop_def split: option.splits)

theorem stop_before_main_exists_witness:
  "fst (stop None (snd (start None (fresh awake_msg 2 False)))) = Inl (AttributeError ''_main'') \<and>
   \<not> running (snd (stop None (snd (start None (fresh awake_msg 2 False)))))"
  using stop_before_main_exists [where s = "fresh awake_msg 2 False" and d = None,
      OF init_fresh]
  by (simp add: running_def)

text \<open>
  C10. \<open>get_result\<close>, whether it returns or raises, leaves the result slot, the
  running flag, the interval, the work and its arguments as they were, and the loop
  and both task slots as well.
\<close>

theorem get_result_frame:
  "p_result (snd (get_result s)) = p_result s \<and>
   p_running (snd (get_result s)) = p_running s \<and>
   p_interval (snd (get_result s)) = p_interval s \<and>
   p_coro (snd (get_result s)) = p_coro s \<and>
   p_args (snd (get_result s)) = p_args s \<and>
   p_kwargs (snd (get_result s)) = p_kwargs s \<and>
   p_loop (snd (get_result s)) = p_loop s \<and>
   p_task (snd (get_result s)) = p_task s \<and>
   p_main (snd (get_result s)) = p_main s"
  by (simp add: snd_get_result)

theorem get_result_frame_witness:
  "fst (get_result (fresh awake_msg 2 False)) = Inl (AttributeError ''_result'') \<and>
   snd (get_result (fresh awake_msg 2 False)) = fresh awake_msg 2 False \<and>
   fst (get_result (fresh awake_msg 2 True)) = Inr Sentinel \<and>
   snd (get_result (fresh awake_msg 2 True)) = fresh awake_msg 2 True"
  using get_result_frame [of "fresh awake_msg 2 False"]
    get_result_frame [of "fresh awake_msg 2 True"]
  by (simp add: eval_simps)

end
